theory Spec2Isabelle
  imports Main "HOL-Library.Word"
begin

unbundle bit_operations_syntax

section \<open>The BGB link-cable serial device of PyBoy (pyboy/core/serial.py)\<close>

text \<open>
  The development embeds the class \<open>Serial\<close> of \<open>pyboy/core/serial.py\<close>. Python's
  integers are unbounded, so every register and counter is an \<open>int\<close>; the bit operators
  of Python on integers (two's complement of unbounded width) are those of HOL on \<open>int\<close>.
  Every mutation of \<open>self\<close> is explicit state passing, every exception is a value, and a
  call that waits (\<open>queue.Queue.get\<close> on an empty queue, \<open>socket.recv\<close> with nothing
  to read) is a result of its own.
\<close>

subsection \<open>Errors\<close>

datatype error =
    ValueError
  | StructError
  | OSError
  | AttributeError
  | OverflowError
  | Exception string

subsection \<open>The packet format \<open>"<4BI"\<close>\<close>

type_synonym byte = "8 word"
type_synonym bytes = "byte list"

definition PACKET_SIZE_BYTES :: nat where
  "PACKET_SIZE_BYTES = 8"

definition BGB_VERSION :: "int \<times> int \<times> int" where
  "BGB_VERSION = (1, 4, 0)"

definition SERIAL_FREQ :: int where
  "SERIAL_FREQ = 8192"

definition CPU_FREQ :: int where
  "CPU_FREQ = 4213440"

text \<open>
  \<open>struct.pack("<4BI", b1, b2, b3, b4, ts)\<close>: four unsigned bytes followed by one unsigned
  32-bit integer, little-endian, no padding. An argument outside the range of its field
  raises \<open>struct.error\<close>.
\<close>

definition in_B :: "int \<Rightarrow> bool" where
  "in_B x = (0 \<le> x \<and> x \<le> 255)"

definition in_I :: "int \<Rightarrow> bool" where
  "in_I x = (0 \<le> x \<and> x \<le> 4294967295)"

definition pack_4BI :: "int \<Rightarrow> int \<Rightarrow> int \<Rightarrow> int \<Rightarrow> int \<Rightarrow> error + bytes" where
  "pack_4BI b1 b2 b3 b4 ts =
     (if in_B b1 \<and> in_B b2 \<and> in_B b3 \<and> in_B b4 \<and> in_I ts
      then Inr [word_of_int b1, word_of_int b2, word_of_int b3, word_of_int b4,
                word_of_int ts, word_of_int (ts div 256),
                word_of_int (ts div 65536), word_of_int (ts div 16777216)]
      else Inl StructError)"

text \<open>
  \<open>struct.unpack("<4BI", data)\<close>: a buffer whose length is not 8 raises \<open>struct.error\<close>.
\<close>

fun unpack_4BI :: "bytes \<Rightarrow> error + (int \<times> int \<times> int \<times> int \<times> int)" where
  "unpack_4BI [a, b, c, d, e, f, g, h] =
     Inr (uint a, uint b, uint c, uint d,
          uint e + 256 * uint f + 65536 * uint g + 16777216 * uint h)"
| "unpack_4BI _ = Inl StructError"

subsection \<open>The device state\<close>

text \<open>
  The socket as this side sees it: whether \<open>close()\<close> was called on it, and the packets
  handed to \<open>send\<close>, oldest first. A \<open>send\<close> or \<open>recv\<close> on a closed socket raises
  \<open>OSError\<close>; a \<open>send\<close> on an open one is taken to succeed.
\<close>

record socket =
  sock_closed :: bool
  sock_sent :: "bytes list"

text \<open>
  The attributes of \<open>Serial\<close>. \<open>recv\<close> is the \<open>queue.Queue\<close> of (data, timestamp)
  pairs, head first. \<open>is_master\<close> is \<open>None\<close> while the attribute has not been assigned
  (the constructor assigns it only after the address checks). The attributes \<open>mb\<close>,
  \<open>_start_time\<close>, \<open>binding_connection\<close> and \<open>recv_t\<close> take no part in what follows and
  are left out; \<open>_handlers\<close> is the constant table \<open>handlers\<close> below.
\<close>

record serial =
  SC :: int
  SB :: int
  connection :: "socket option"
  trans_bits :: int
  cycles_count :: int
  cycles_target :: int
  timestamp :: int
  ts_cycles :: int
  got_version :: bool
  last_received_timestamp :: int
  recv :: "(int \<times> int) list"
  quitting :: bool
  is_master :: "bool option"

subsection \<open>\<open>Serial.__init__\<close>\<close>

text \<open>\<open>str.count\<close> of a one-character string and \<open>str.split\<close> on a one-character separator.\<close>

definition count_char :: "char \<Rightarrow> string \<Rightarrow> nat" where
  "count_char c s = length (filter (\<lambda>x. x = c) s)"

fun split_char :: "char \<Rightarrow> string \<Rightarrow> string list" where
  "split_char c [] = [[]]"
| "split_char c (x # xs) =
     (if x = c then [] # split_char c xs
      else (case split_char c xs of
              [] \<Rightarrow> [[x]]
            | p # ps \<Rightarrow> (x # p) # ps))"

text \<open>
  \<open>int(s)\<close> on a string of ASCII characters: surrounding whitespace (the characters 9 to
  13 and the space, 32) is stripped, one sign is allowed, then decimal digits, where
  single underscores may stand between digits. \<open>None\<close> stands for \<open>ValueError\<close>.
\<close>

definition is_space :: "char \<Rightarrow> bool" where
  "is_space c = (let n = (of_char c :: nat) in (9 \<le> n \<and> n \<le> 13) \<or> n = 32)"

definition is_digit :: "char \<Rightarrow> bool" where
  "is_digit c = (let n = (of_char c :: nat) in 48 \<le> n \<and> n \<le> 57)"

definition digit_val :: "char \<Rightarrow> int" where
  "digit_val c = int (of_char c) - 48"

fun digits_val :: "string \<Rightarrow> int \<Rightarrow> int option" where
  "digits_val [] acc = Some acc"
| "digits_val [c] acc = (if is_digit c then Some (10 * acc + digit_val c) else None)"
| "digits_val (c # d # ds) acc =
     (if is_digit c then digits_val (d # ds) (10 * acc + digit_val c)
      else if c = CHR ''_'' \<and> is_digit d then digits_val ds (10 * acc + digit_val d)
      else None)"

definition strip :: "string \<Rightarrow> string" where
  "strip s = rev (dropWhile is_space (rev (dropWhile is_space s)))"

definition unsigned_val :: "string \<Rightarrow> int option" where
  "unsigned_val s =
     (case s of
        [] \<Rightarrow> None
      | c # cs \<Rightarrow> if is_digit c then digits_val cs (digit_val c) else None)"

definition py_int :: "string \<Rightarrow> int option" where
  "py_int s =
     (case strip s of
        [] \<Rightarrow> None
      | c # cs \<Rightarrow>
          if c = CHR ''-'' then map_option uminus (unsigned_val cs)
          else if c = CHR ''+'' then unsigned_val cs
          else unsigned_val (c # cs))"

text \<open>The attribute values assigned at the top of \<open>__init__\<close>.\<close>

definition fresh :: serial where
  "fresh =
     \<lparr>SC = 0, SB = 0, connection = None, trans_bits = 0, cycles_count = 0,
      cycles_target = CPU_FREQ div SERIAL_FREQ, timestamp = 0, ts_cycles = 0,
      got_version = False, last_received_timestamp = 0, recv = [], quitting = False,
      is_master = None\<rparr>"

definition new_socket :: socket where
  "new_socket = \<lparr>sock_closed = False, sock_sent = []\<rparr>"

text \<open>
  The constructor. \<open>serial_address\<close> is a string (of ASCII characters) or \<open>None\<close>. The
  result is the exception that leaves the constructor, or the constructed object.

  The guard of the second check is the source's
  \<open>not serial_address.count(".") == 3 and serial_address.count(":") == 1\<close>, where \<open>not\<close>
  binds tighter than \<open>and\<close>. The two-target assignment from \<open>split(":")\<close> raises
  \<open>ValueError\<close> unless the list has exactly two elements.

  \<open>bind\<close> and \<open>connect\<close> first read the address tuple: a port that does not fit a C
  \<open>int\<close> raises \<open>OverflowError\<close>, then the host is resolved, then a port outside
  \<open>0..65535\<close> raises \<open>OverflowError\<close>. What the operating system decides is given by two
  parameters: \<open>resolves\<close> says whether the host resolves, and \<open>establish\<close>, given the bind
  flag and the address tuple, whether the connection is then made (\<open>bind\<close>, \<open>listen\<close>,
  \<open>accept\<close>, or \<open>connect\<close>); where either fails the call raises \<open>OSError\<close>.
\<close>

definition init ::
  "(string \<Rightarrow> bool) \<Rightarrow> (bool \<Rightarrow> string \<times> int \<Rightarrow> bool) \<Rightarrow> string option \<Rightarrow> bool
     \<Rightarrow> error + serial" where
  "init resolves establish serial_address serial_bind =
     (case serial_address of
        None \<Rightarrow> Inr fresh
      | Some addr \<Rightarrow>
          if addr = [] then Inr fresh
          else if (\<not> count_char CHR ''.'' addr = 3) \<and> count_char CHR '':'' addr = 1
          then Inr fresh
          else (case split_char CHR '':'' addr of
                  [address_ip, address_port] \<Rightarrow>
                    (case py_int address_port of
                       None \<Rightarrow> Inl ValueError
                     | Some port \<Rightarrow>
                         if port < - (2 ^ 31) \<or> 2 ^ 31 \<le> port then Inl OverflowError
                         else if \<not> resolves address_ip then Inl OSError
                         else if port < 0 \<or> 65535 < port then Inl OverflowError
                         else if establish serial_bind (address_ip, port)
                         then Inr (fresh\<lparr>connection := Some new_socket,
                                         is_master := Some serial_bind\<rparr>)
                         else Inl OSError)
                | _ \<Rightarrow> Inl ValueError))"

subsection \<open>Sending\<close>

text \<open>\<open>self.connection.send(data)\<close>: the attribute lookup on \<open>None\<close> raises \<open>AttributeError\<close>.\<close>

definition connection_send :: "serial \<Rightarrow> bytes \<Rightarrow> error + serial" where
  "connection_send s data =
     (case connection s of
        None \<Rightarrow> Inl AttributeError
      | Some c \<Rightarrow>
          if sock_closed c then Inl OSError
          else Inr (s\<lparr>connection := Some (c\<lparr>sock_sent := sock_sent c @ [data]\<rparr>)\<rparr>))"

text \<open>
  The first argument of the Sync packets, \<open>104 if self.is_master else 105\<close>; reading the
  attribute before it was assigned raises \<open>AttributeError\<close>.
\<close>

definition sync_kind :: "serial \<Rightarrow> error + int" where
  "sync_kind s =
     (case is_master s of
        None \<Rightarrow> Inl AttributeError
      | Some m \<Rightarrow> Inr (if m then 104 else 105))"

text \<open>
  \<open>send_bit\<close>: Python evaluates \<open>self.connection.send\<close> first, then the arguments of
  \<open>struct.pack\<close> from left to right, then packs, then sends.
\<close>

definition send_bit :: "serial \<Rightarrow> error + serial" where
  "send_bit s =
     (case connection s of
        None \<Rightarrow> Inl AttributeError
      | Some c \<Rightarrow>
          (case sync_kind s of
             Inl e \<Rightarrow> Inl e
           | Inr k \<Rightarrow>
               (case pack_4BI k (drop_bit 7 (SB s) AND 1) (SC s) 0 (timestamp s) of
                  Inl e \<Rightarrow> Inl e
                | Inr pkt \<Rightarrow> connection_send s pkt)))"

subsection \<open>\<open>Serial.tick\<close>\<close>

definition cycles_to_transmit :: "serial \<Rightarrow> int" where
  "cycles_to_transmit s =
     (if connection s \<noteq> None \<and> SC s AND 0x80 \<noteq> 0
      then max (cycles_target s - cycles_count s) 0
      else push_bit 16 1)"

text \<open>
  A call of \<open>tick\<close> returns a boolean, or raises, or waits in \<open>self.recv.get()\<close> because
  the queue is empty. Each outcome carries the attributes as they are at that moment:
  Python has mutated the object in place before the exception or the wait.
  (\<open>print(bin(self.SB))\<close> writes to standard output and changes nothing.)
\<close>

datatype tick_result =
    Returned bool serial
  | Blocked serial
  | Raised error serial

fun state_of :: "tick_result \<Rightarrow> serial" where
  "state_of (Returned _ s) = s"
| "state_of (Blocked s) = s"
| "state_of (Raised _ s) = s"

definition tick :: "serial \<Rightarrow> int \<Rightarrow> tick_result" where
  "tick s cycles =
     (if connection s = None then Returned False (s\<lparr>SB := 0xFF\<rparr>)
      else
        let s1 = s\<lparr>cycles_count := cycles_count s + cycles\<rparr>;
            s2 = s1\<lparr>ts_cycles := ts_cycles s1 + cycles\<rparr>;
            s3 = (if ts_cycles s2 \<ge> push_bit 21 1
                  then s2\<lparr>ts_cycles := ts_cycles s2 - push_bit 21 1,
                          timestamp := timestamp s2 + 1\<rparr>
                  else s2)
        in
          if cycles_to_transmit s3 = 0 then
            if timestamp s3 > last_received_timestamp s3 then Returned False s3
            else
              (case (if drop_bit 7 (SC s3) AND 1 \<noteq> 0 then send_bit s3 else Inr s3) of
                 Inl e \<Rightarrow> Raised e s3
               | Inr s4 \<Rightarrow>
                   (case recv s4 of
                      [] \<Rightarrow> Blocked s4
                    | (byte, ts) # rest \<Rightarrow>
                        let s5 = s4\<lparr>recv := rest,
                                    SB := (push_bit 1 (SB s4) AND 0xFF) OR byte\<rparr>;
                            s6 = s5\<lparr>trans_bits := trans_bits s5 + 1\<rparr>;
                            s7 = s6\<lparr>cycles_count := 0\<rparr>
                        in
                          if trans_bits s7 = 8
                          then Returned True (s7\<lparr>trans_bits := 0, SC := SC s7 AND 0x7F\<rparr>)
                          else Returned False s7))
          else Returned False s3)"

text \<open>
  A run of the main loop: \<open>tick\<close> is called with each cycle count in turn, as long as the
  calls return. The result is the outcome of the call that did not return, or \<open>Returned\<close>
  with the state after the last call (the flag of the run as a whole is not used).
\<close>

fun ticks :: "serial \<Rightarrow> int list \<Rightarrow> tick_result" where
  "ticks s [] = Returned False s"
| "ticks s (c # cs) =
     (case tick s c of
        Returned _ s' \<Rightarrow> ticks s' cs
      | Blocked s' \<Rightarrow> Blocked s'
      | Raised e s' \<Rightarrow> Raised e s')"

subsection \<open>The packet handlers\<close>

text \<open>
  A handler takes the fields \<open>b2\<close>, \<open>b3\<close>, \<open>b4\<close> and the timestamp of the received packet. It
  returns the attributes as it leaves them, and either the exception it raises or its
  return value: \<open>None\<close>, or the packed reply.
\<close>

type_synonym handler = "serial \<Rightarrow> int \<Rightarrow> int \<Rightarrow> int \<Rightarrow> int \<Rightarrow> serial \<times> (error + bytes option)"

definition get_status_packet :: "serial \<Rightarrow> error + bytes" where
  "get_status_packet s = pack_4BI 108 1 0 0 (timestamp s)"

definition handle_version :: handler where
  "handle_version s major minor patch ts =
     (if (major, minor, patch) \<noteq> BGB_VERSION
      then (s, Inl (Exception ''BGB version mismatch!''))
      else if \<not> got_version s
      then (let s1 = s\<lparr>got_version := True\<rparr>
            in (s1, map_sum id Some (get_status_packet s1)))
      else (s, Inr None))"

definition handle_joypad_update :: handler where
  "handle_joypad_update s b2 b3 b4 ts = (s, Inr None)"

text \<open>
  \<open>_client_data_handler\<close> returns the bit \<open>(self.SB >> 7) & 1\<close>, never \<open>None\<close>; the result
  is an option so that the callers' test \<open>response is not None\<close> stays a branch.
\<close>

definition client_data_handler :: "serial \<Rightarrow> int \<Rightarrow> int \<Rightarrow> serial \<times> int option" where
  "client_data_handler s data ts =
     (let send_bit = drop_bit 7 (SB s) AND 1;
          s1 = s\<lparr>recv := recv s @ [(data, ts)]\<rparr>
      in (s1, Some send_bit))"

definition handle_sync1 :: handler where
  "handle_sync1 s data control b4 ts =
     (case client_data_handler s data ts of
        (s1, Some response) \<Rightarrow>
          (case sync_kind s1 of
             Inl e \<Rightarrow> (s1, Inl e)
           | Inr k \<Rightarrow> (s1, map_sum id Some (pack_4BI k response (SC s1) 0 (timestamp s1))))
      | (s1, None) \<Rightarrow> (s1, Inr None))"

definition handle_sync2 :: handler where
  "handle_sync2 s data control b4 ts =
     (case client_data_handler s data ts of
        (s1, Some response) \<Rightarrow>
          (case sync_kind s1 of
             Inl e \<Rightarrow> (s1, Inl e)
           | Inr k \<Rightarrow> (s1, map_sum id Some (pack_4BI k response (SC s1) 0 (timestamp s1))))
      | (s1, None) \<Rightarrow> (s1, Inr None))"

definition handle_sync3 :: handler where
  "handle_sync3 s b2 b3 b4 ts = (s, map_sum id Some (pack_4BI 106 b2 b3 b4 (timestamp s)))"

definition handle_status :: handler where
  "handle_status s b2 b3 b4 ts = (s, map_sum id Some (get_status_packet s))"

definition handle_want_disconnect :: handler where
  "handle_want_disconnect s b2 b3 b4 ts =
     (case connection s of
        None \<Rightarrow> (s, Inl AttributeError)
      | Some c \<Rightarrow> (s\<lparr>connection := Some (c\<lparr>sock_closed := True\<rparr>)\<rparr>, Inr None))"

text \<open>The table \<open>self._handlers\<close>.\<close>

definition handlers :: "int \<Rightarrow> handler option" where
  "handlers kind =
     (if kind = 1 then Some handle_version
      else if kind = 101 then Some handle_joypad_update
      else if kind = 104 then Some handle_sync1
      else if kind = 105 then Some handle_sync2
      else if kind = 106 then Some handle_sync3
      else if kind = 108 then Some handle_status
      else if kind = 109 then Some handle_want_disconnect
      else None)"

subsection \<open>\<open>Serial.recv_thread\<close>\<close>

text \<open>
  What one call \<open>self.connection.recv(PACKET_SIZE_BYTES)\<close> gives the receiver: at most 8
  bytes (none when the peer has closed the connection), or one of the two exceptions
  the loop catches.
\<close>

datatype recv_event =
    Data bytes
  | BlockingIOError
  | ConnectionResetError

text \<open>One pass through the body of the \<open>while\<close> loop.\<close>

datatype pass_result =
    Continue serial
  | Break serial
  | Uncaught error serial

definition recv_pass :: "serial \<Rightarrow> recv_event \<Rightarrow> pass_result" where
  "recv_pass s ev =
     (case connection s of
        None \<Rightarrow> Uncaught AttributeError s
      | Some c \<Rightarrow>
          if sock_closed c then Uncaught OSError s
          else
            (case ev of
               BlockingIOError \<Rightarrow> Continue s
             | ConnectionResetError \<Rightarrow> Break s
             | Data data \<Rightarrow>
                 if data = [] then Break s
                 else
                   (case unpack_4BI (take PACKET_SIZE_BYTES data) of
                      Inl e \<Rightarrow> Uncaught e s
                    | Inr (b1, b2, b3, b4, ts) \<Rightarrow>
                        let s1 = s\<lparr>last_received_timestamp := ts\<rparr> in
                          (case handlers b1 of
                             None \<Rightarrow> Continue s1
                           | Some h \<Rightarrow>
                               (case h s1 b2 b3 b4 ts of
                                  (s2, Inl e) \<Rightarrow> Uncaught e s2
                                | (s2, Inr None) \<Rightarrow> Continue s2
                                | (s2, Inr (Some response)) \<Rightarrow>
                                    if response \<noteq> [] then
                                      (case connection_send s2 response of
                                         Inl e \<Rightarrow> Uncaught e s2
                                       | Inr s3 \<Rightarrow> Continue s3)
                                    else Continue s2)))))"

text \<open>
  The thread over the events its reads produce, in order. It ends by leaving the loop
  (\<open>Exited\<close>), by an exception nothing catches (\<open>Died\<close>), or it is still waiting in
  \<open>recv\<close> when the events are used up (\<open>Waiting\<close>); a \<open>recv\<close> on a socket that is
  unset or closed raises instead of waiting.
\<close>

datatype thread_result =
    Waiting serial
  | Exited serial
  | Died error serial

fun recv_loop :: "serial \<Rightarrow> recv_event list \<Rightarrow> thread_result" where
  "recv_loop s [] =
     (if quitting s then Exited s
      else (case connection s of
              None \<Rightarrow> Died AttributeError s
            | Some c \<Rightarrow> if sock_closed c then Died OSError s else Waiting s))"
| "recv_loop s (ev # evs) =
     (if quitting s then Exited s
      else (case recv_pass s ev of
              Continue s' \<Rightarrow> recv_loop s' evs
            | Break s' \<Rightarrow> Exited s'
            | Uncaught e s' \<Rightarrow> Died e s'))"

definition recv_thread :: "serial \<Rightarrow> recv_event list \<Rightarrow> thread_result" where
  "recv_thread s evs =
     (case pack_4BI 1 (fst BGB_VERSION) (fst (snd BGB_VERSION)) (snd (snd BGB_VERSION)) 0 of
        Inl e \<Rightarrow> Died e s
      | Inr pkt \<Rightarrow>
          (case connection_send s pkt of
             Inl e \<Rightarrow> Died e s
           | Inr s' \<Rightarrow> recv_loop s' evs))"

fun thread_state :: "thread_result \<Rightarrow> serial" where
  "thread_state (Waiting s) = s"
| "thread_state (Exited s) = s"
| "thread_state (Died _ s) = s"

subsection \<open>Concrete devices\<close>

text \<open>
  The object a successful construction returns (\<open>m\<close> is the bind flag), and a connected
  device whose local timestamp is ahead of the last one received, with a transfer
  started and nothing in the queue.
\<close>

definition linked :: "bool \<Rightarrow> serial" where
  "linked m = fresh\<lparr>connection := Some new_socket, is_master := Some m\<rparr>"

definition stalled :: serial where
  "stalled = (linked True)\<lparr>SC := 0x81, timestamp := 5, last_received_timestamp := 3\<rparr>"

text \<open>
  A connected device one bit short of a complete byte: a transfer is started, seven bits
  are in, and the receiver has queued the eighth.
\<close>

definition armed :: serial where
  "armed = (linked True)\<lparr>SC := 0x81, SB := 0x52, trans_bits := 7, recv := [(1, 0)]\<rparr>"

text \<open>
  The same device after the receiver handled a WantDisconnect packet: the socket is
  closed, and \<open>connection\<close> is still set.
\<close>

definition hung_up :: serial where
  "hung_up = armed\<lparr>connection := Some (new_socket\<lparr>sock_closed := True\<rparr>)\<rparr>"

text \<open>
  A received Version packet of the implemented version \<open>1.4.0\<close>, given the four bytes of
  its timestamp field, and the value of such a field (what \<open>unpack_4BI\<close> reads from
  bytes 4 to 7).
\<close>

definition version_packet :: "byte \<times> byte \<times> byte \<times> byte \<Rightarrow> bytes" where
  "version_packet t = (case t of (t0, t1, t2, t3) \<Rightarrow> [1, 1, 4, 0, t0, t1, t2, t3])"

definition le32 :: "byte \<times> byte \<times> byte \<times> byte \<Rightarrow> int" where
  "le32 t = (case t of (t0, t1, t2, t3) \<Rightarrow>
               uint t0 + 256 * uint t1 + 65536 * uint t2 + 16777216 * uint t3)"

section \<open>Properties\<close>

subsection \<open>Basic facts\<close>

lemma init_linked:
  "init (\<lambda>_. True) (\<lambda>_ _. True) (Some ''127.0.0.1:8080'') m = Inr (linked m)"
  by (simp add: init_def linked_def count_char_def py_int_def strip_def is_space_def
      unsigned_val_def is_digit_def digit_val_def)

lemma init_port_out_of_range:
  "init (\<lambda>_. True) (\<lambda>_ _. True) (Some ''127.0.0.1:99999'') m = Inl OverflowError"
  by (simp add: init_def count_char_def py_int_def strip_def is_space_def
      unsigned_val_def is_digit_def digit_val_def)

lemma py_int_no_separator_strip: "py_int [CHR 0x1C, CHR ''8''] = None"
  by (simp add: py_int_def strip_def is_space_def unsigned_val_def is_digit_def)

lemma connection_send_Inr:
  "connection_send s d = Inr s' \<Longrightarrow>
     \<exists>c. connection s = Some c \<and> \<not> sock_closed c \<and>
         s' = s\<lparr>connection := Some (c\<lparr>sock_sent := sock_sent c @ [d]\<rparr>)\<rparr>"
  by (auto simp: connection_send_def split: option.splits if_splits)

lemma send_bit_Inr:
  "send_bit s = Inr s' \<Longrightarrow>
     \<exists>c pkt. connection s = Some c \<and> \<not> sock_closed c \<and>
         s' = s\<lparr>connection := Some (c\<lparr>sock_sent := sock_sent c @ [pkt]\<rparr>)\<rparr>"
  by (auto simp: send_bit_def connection_send_def split: option.splits sum.splits if_splits)

subsection \<open>The disabled device\<close>

lemma ticks_disabled:
  "connection s = None \<Longrightarrow>
     ticks s cs = Returned False (if cs = [] then s else s\<lparr>SB := 0xFF\<rparr>)"
  by (induction cs arbitrary: s) (auto simp: tick_def)

text \<open>
  C9. With no connection, \<open>tick\<close> with any cycle count returns \<open>False\<close> (no transfer) and
  leaves every attribute as it was except \<open>SB\<close>, which is \<open>0xFF\<close>; the call returns, so it
  does not wait on the queue, and the queue is untouched. The same holds for every run
  of calls that starts with it.
\<close>

theorem tick_disabled:
  "connection s = None \<Longrightarrow>
     tick s cycles = Returned False (s\<lparr>SB := 0xFF\<rparr>)
     \<and> (\<forall>cs. ticks s (cycles # cs) = Returned False (s\<lparr>SB := 0xFF\<rparr>))"
  using ticks_disabled[of s "cycles # _"] by (simp add: tick_def)

theorem tick_disabled_witness:
  "connection fresh = None \<and> tick fresh 514 = Returned False (fresh\<lparr>SB := 255\<rparr>)
   \<and> ticks fresh [514, 70000, 3] = Returned False (fresh\<lparr>SB := 255\<rparr>)"
proof -
  have h: "connection fresh = None" by (simp add: fresh_def)
  from tick_disabled[OF h, of 514] show ?thesis using h by blast
qed

subsection \<open>The local clock\<close>

lemma tick_clock_update:
  assumes "connection s \<noteq> None"
  shows "timestamp (state_of (tick s c)) =
           (if ts_cycles s + c \<ge> 2097152 then timestamp s + 1 else timestamp s)
       \<and> ts_cycles (state_of (tick s c)) =
           (if ts_cycles s + c \<ge> 2097152 then ts_cycles s + c - 2097152 else ts_cycles s + c)"
  using assms
  by (auto simp: tick_def Let_def split: sum.splits list.splits dest!: send_bit_Inr)

text \<open>
  C6. On a connected device whose accumulator \<open>_ts_cycles\<close> is 0, a tick of exactly
  \<open>2^21\<close> cycles adds 1 to \<open>_timestamp\<close> and leaves the accumulator at 0, and a tick of
  \<open>2^21 + 100\<close> cycles adds 1 and leaves it at 100. For every cycle count the clock is
  updated in the same way whatever else the call does: the equations hold for the
  attributes in each outcome of \<open>tick\<close> (returned with or without a transfer, raised,
  waiting on the queue).
\<close>

theorem tick_clock:
  assumes "connection s \<noteq> None"
  shows "(ts_cycles s = 0 \<longrightarrow>
            timestamp (state_of (tick s (2 ^ 21))) = timestamp s + 1
          \<and> ts_cycles (state_of (tick s (2 ^ 21))) = 0
          \<and> timestamp (state_of (tick s (2 ^ 21 + 100))) = timestamp s + 1
          \<and> ts_cycles (state_of (tick s (2 ^ 21 + 100))) = 100)
       \<and> timestamp (state_of (tick s cycles)) =
           (if ts_cycles s + cycles \<ge> 2 ^ 21 then timestamp s + 1 else timestamp s)
       \<and> ts_cycles (state_of (tick s cycles)) =
           (if ts_cycles s + cycles \<ge> 2 ^ 21 then ts_cycles s + cycles - 2 ^ 21
            else ts_cycles s + cycles)"
  using tick_clock_update[OF assms, of "2 ^ 21"] tick_clock_update[OF assms, of "2 ^ 21 + 100"]
    tick_clock_update[OF assms, of cycles]
  by simp

theorem tick_clock_witness:
  "connection (linked True) \<noteq> None \<and> ts_cycles (linked True) = 0
   \<and> timestamp (state_of (tick (linked True) (2 ^ 21))) = 1
   \<and> ts_cycles (state_of (tick (linked True) (2 ^ 21))) = 0
   \<and> timestamp (state_of (tick (linked True) (2 ^ 21 + 100))) = 1
   \<and> ts_cycles (state_of (tick (linked True) (2 ^ 21 + 100))) = 100"
proof -
  have h: "connection (linked True) \<noteq> None" by (simp add: linked_def)
  have z: "ts_cycles (linked True) = 0" "timestamp (linked True) = 0"
    by (simp_all add: linked_def fresh_def)
  from tick_clock[OF h, of 0] z h show ?thesis by simp
qed

subsection \<open>The timestamp gate\<close>

text \<open>
  C1. On a connected device, when the cycle threshold is reached
  (\<open>cycles_to_transmit\<close> is 0 once the elapsed cycles are added) and the local timestamp,
  as updated by this call, is strictly greater than the last received one, \<open>tick\<close>
  returns \<open>False\<close>. The attributes it leaves differ from the ones it found only in
  \<open>cycles_count\<close>, which has grown by the elapsed cycles and is not reset, and in the
  clock: the queue is as it was (nothing was taken from it, and the call did not
  wait), and so is the socket (nothing was sent).
\<close>

theorem tick_timestamp_gate:
  assumes "connection s \<noteq> None"
    and "cycles_to_transmit (s\<lparr>cycles_count := cycles_count s + cycles\<rparr>) = 0"
    and "(if ts_cycles s + cycles \<ge> 2 ^ 21 then timestamp s + 1 else timestamp s)
           > last_received_timestamp s"
  shows "tick s cycles =
           Returned False
             (s\<lparr>cycles_count := cycles_count s + cycles,
                ts_cycles := (if ts_cycles s + cycles \<ge> 2 ^ 21
                              then ts_cycles s + cycles - 2 ^ 21 else ts_cycles s + cycles),
                timestamp := (if ts_cycles s + cycles \<ge> 2 ^ 21
                              then timestamp s + 1 else timestamp s)\<rparr>)"
  using assms
  by (auto simp: tick_def Let_def cycles_to_transmit_def)

theorem tick_timestamp_gate_witness:
  "connection stalled \<noteq> None
   \<and> cycles_to_transmit (stalled\<lparr>cycles_count := cycles_count stalled + 514\<rparr>) = 0
   \<and> (if ts_cycles stalled + 514 \<ge> 2 ^ 21 then timestamp stalled + 1 else timestamp stalled)
         > last_received_timestamp stalled
   \<and> tick stalled 514 = Returned False (stalled\<lparr>cycles_count := 514, ts_cycles := 514\<rparr>)
   \<and> recv stalled = []"
proof -
  have a: "connection stalled \<noteq> None" by (simp add: stalled_def linked_def)
  have b: "cycles_to_transmit (stalled\<lparr>cycles_count := cycles_count stalled + 514\<rparr>) = 0"
    by (simp add: stalled_def linked_def fresh_def cycles_to_transmit_def
        CPU_FREQ_def SERIAL_FREQ_def)
  have c: "(if ts_cycles stalled + 514 \<ge> 2 ^ 21 then timestamp stalled + 1
            else timestamp stalled) > last_received_timestamp stalled"
    by (simp add: stalled_def linked_def fresh_def)
  from tick_timestamp_gate[OF a b c] a b c show ?thesis
    by (simp add: stalled_def linked_def fresh_def)
qed

subsection \<open>Bit transfers\<close>

text \<open>
  A call of \<open>tick\<close> that returns has either left the queue alone or taken its head; the
  two cases are told apart by comparing the queue before and after.
\<close>

lemma tick_Returned:
  assumes "connection s \<noteq> None" and "tick s cycles = Returned r s'"
  shows "(if recv s' = recv s
          then \<not> r \<and> trans_bits s' = trans_bits s \<and> SB s' = SB s \<and> SC s' = SC s
          else \<exists>byte ts. recv s = (byte, ts) # recv s'
                 \<and> SB s' = (push_bit 1 (SB s) AND 0xFF) OR byte
                 \<and> cycles_count s' = 0
                 \<and> (r \<longleftrightarrow> trans_bits s + 1 = 8)
                 \<and> trans_bits s' = (if trans_bits s + 1 = 8 then 0 else trans_bits s + 1)
                 \<and> SC s' = (if trans_bits s + 1 = 8 then SC s AND 0x7F else SC s))"
  using assms
  by (auto simp: tick_def Let_def split: sum.splits list.splits if_splits dest!: send_bit_Inr)

lemma tick_trans_bits_range:
  assumes "0 \<le> trans_bits s" and "trans_bits s < 8"
  shows "0 \<le> trans_bits (state_of (tick s cycles)) \<and> trans_bits (state_of (tick s cycles)) < 8"
  using assms
  by (auto simp: tick_def Let_def split: sum.splits list.splits if_splits dest!: send_bit_Inr)

lemma ticks_trans_bits_range:
  assumes "0 \<le> trans_bits s" and "trans_bits s < 8"
  shows "0 \<le> trans_bits (state_of (ticks s cs)) \<and> trans_bits (state_of (ticks s cs)) < 8"
  using assms
proof (induction cs arbitrary: s)
  case Nil
  then show ?case by simp
next
  case (Cons c cs)
  from tick_trans_bits_range[OF Cons.prems, of c]
  have r: "0 \<le> trans_bits (state_of (tick s c))" "trans_bits (state_of (tick s c)) < 8" by simp_all
  show ?case
  proof (cases "tick s c")
    case (Returned b s')
    with r Cons.IH[of s'] show ?thesis by simp
  next
    case (Blocked s')
    with r show ?thesis by simp
  next
    case (Raised e s')
    with r show ?thesis by simp
  qed
qed

text \<open>
  The receiver thread does not touch \<open>trans_bits\<close>: no handler of the table changes it.
\<close>

lemma handlers_trans_bits:
  "handlers k = Some h \<Longrightarrow> trans_bits (fst (h s b2 b3 b4 ts)) = trans_bits s"
  by (auto simp: handlers_def handle_version_def handle_joypad_update_def handle_sync1_def
      handle_sync2_def handle_sync3_def handle_status_def handle_want_disconnect_def
      client_data_handler_def Let_def split: if_splits option.splits sum.splits)

text \<open>
  What a call does is determined by its input. The attributes after the first part of
  the call (the cycle count and the clock) are written \<open>s1\<close> below.
\<close>

lemma bit7_set:
  fixes x :: int
  shows "(drop_bit 7 x AND 1 \<noteq> 0) = (x AND 0x80 \<noteq> 0)"
proof -
  have "(x AND 2 ^ 7 = 0) = (\<not> bit x 7)" by (rule and_exp_eq_0_iff_not_bit)
  moreover have "(drop_bit 7 x AND 1 \<noteq> 0) = bit x 7"
    by (simp add: and_one_eq bit_iff_odd_drop_bit odd_iff_mod_2_eq_one)
  ultimately show ?thesis by simp
qed

lemma top_bit_range:
  fixes x :: int
  shows "0 \<le> drop_bit 7 x AND 1 \<and> drop_bit 7 x AND 1 \<le> 255"
  by (simp add: and_one_eq)

lemma tick_tail:
  assumes "connection s1 \<noteq> None" and "cycles_to_transmit s1 = 0"
  shows "(if cycles_to_transmit s1 = 0 then
            if timestamp s1 > last_received_timestamp s1 then Returned False s1
            else
              (case (if drop_bit 7 (SC s1) AND 1 \<noteq> 0 then send_bit s1 else Inr s1) of
                 Inl e \<Rightarrow> Raised e s1
               | Inr s4 \<Rightarrow>
                   (case recv s4 of
                      [] \<Rightarrow> Blocked s4
                    | (byte, ts) # rest \<Rightarrow>
                        let s5 = s4\<lparr>recv := rest,
                                    SB := (push_bit 1 (SB s4) AND 0xFF) OR byte\<rparr>;
                            s6 = s5\<lparr>trans_bits := trans_bits s5 + 1\<rparr>;
                            s7 = s6\<lparr>cycles_count := 0\<rparr>
                        in
                          if trans_bits s7 = 8
                          then Returned True (s7\<lparr>trans_bits := 0, SC := SC s7 AND 0x7F\<rparr>)
                          else Returned False s7))
          else Returned False s1) =
         (if timestamp s1 > last_received_timestamp s1 then Returned False s1
          else (case send_bit s1 of
                 Inl e \<Rightarrow> Raised e s1
               | Inr s2 \<Rightarrow>
                   (case recv s1 of
                      [] \<Rightarrow> Blocked s2
                    | (byte, ts) # rest \<Rightarrow>
                        Returned (trans_bits s1 + 1 = 8)
                          (s2\<lparr>recv := rest,
                              SB := (push_bit 1 (SB s1) AND 0xFF) OR byte,
                              trans_bits := (if trans_bits s1 + 1 = 8 then 0 else trans_bits s1 + 1),
                              cycles_count := 0,
                              SC := (if trans_bits s1 + 1 = 8 then SC s1 AND 0x7F else SC s1)\<rparr>))))"
proof -
  have "SC s1 AND 0x80 \<noteq> 0"
    using assms(2) by (auto simp: cycles_to_transmit_def split: if_splits)
  then have b7: "drop_bit 7 (SC s1) AND 1 \<noteq> 0" by (simp add: bit7_set)
  show ?thesis
  proof (cases "send_bit s1")
    case (Inl e)
    then show ?thesis using assms(2) b7 by simp
  next
    case (Inr s2)
    from send_bit_Inr[OF Inr] obtain c pkt where
      s2: "s2 = s1\<lparr>connection := Some (c\<lparr>sock_sent := sock_sent c @ [pkt]\<rparr>)\<rparr>" by blast
    show ?thesis
    proof (cases "recv s1")
      case Nil
      then show ?thesis using assms(2) b7 Inr s2 by simp
    next
      case (Cons p rest)
      obtain byte ts where p: "p = (byte, ts)" by (cases p)
      show ?thesis using assms(2) b7 Inr s2 Cons p by (simp add: Let_def)
    qed
  qed
qed


lemma tick_at_threshold:
  assumes "connection s \<noteq> None"
    and "cycles_to_transmit (s\<lparr>cycles_count := cycles_count s + cycles\<rparr>) = 0"
  shows "tick s cycles =
     (let s1 = s\<lparr>cycles_count := cycles_count s + cycles,
                  ts_cycles := (if ts_cycles s + cycles \<ge> 2 ^ 21
                                then ts_cycles s + cycles - 2 ^ 21 else ts_cycles s + cycles),
                  timestamp := (if ts_cycles s + cycles \<ge> 2 ^ 21
                                then timestamp s + 1 else timestamp s)\<rparr>
      in if timestamp s1 > last_received_timestamp s then Returned False s1
         else (case send_bit s1 of
                 Inl e \<Rightarrow> Raised e s1
               | Inr s2 \<Rightarrow>
                   (case recv s of
                      [] \<Rightarrow> Blocked s2
                    | (byte, ts) # rest \<Rightarrow>
                        Returned (trans_bits s + 1 = 8)
                          (s2\<lparr>recv := rest,
                              SB := (push_bit 1 (SB s) AND 0xFF) OR byte,
                              trans_bits := (if trans_bits s + 1 = 8 then 0 else trans_bits s + 1),
                              cycles_count := 0,
                              SC := (if trans_bits s + 1 = 8 then SC s AND 0x7F else SC s)\<rparr>))))"
proof -
  let ?s1 = "s\<lparr>cycles_count := cycles_count s + cycles,
                  ts_cycles := (if ts_cycles s + cycles \<ge> 2 ^ 21
                                then ts_cycles s + cycles - 2 ^ 21 else ts_cycles s + cycles),
                  timestamp := (if ts_cycles s + cycles \<ge> 2 ^ 21
                                then timestamp s + 1 else timestamp s)\<rparr>"
  have c: "connection ?s1 \<noteq> None" using assms(1) by simp
  have thr: "cycles_to_transmit ?s1 = 0"
    using assms by (auto simp: cycles_to_transmit_def split: if_splits)
  have s3: "(if ts_cycles (s\<lparr>cycles_count := cycles_count s + cycles\<rparr>
                    \<lparr>ts_cycles := ts_cycles (s\<lparr>cycles_count := cycles_count s + cycles\<rparr>) + cycles\<rparr>)
                \<ge> push_bit 21 1
             then s\<lparr>cycles_count := cycles_count s + cycles\<rparr>
                    \<lparr>ts_cycles := ts_cycles (s\<lparr>cycles_count := cycles_count s + cycles\<rparr>) + cycles\<rparr>
                    \<lparr>ts_cycles := ts_cycles (s\<lparr>cycles_count := cycles_count s + cycles\<rparr>
                       \<lparr>ts_cycles := ts_cycles (s\<lparr>cycles_count := cycles_count s + cycles\<rparr>) + cycles\<rparr>)
                         - push_bit 21 1,
                      timestamp := timestamp (s\<lparr>cycles_count := cycles_count s + cycles\<rparr>
                       \<lparr>ts_cycles := ts_cycles (s\<lparr>cycles_count := cycles_count s + cycles\<rparr>) + cycles\<rparr>) + 1\<rparr>
             else s\<lparr>cycles_count := cycles_count s + cycles\<rparr>
                    \<lparr>ts_cycles := ts_cycles (s\<lparr>cycles_count := cycles_count s + cycles\<rparr>) + cycles\<rparr>) = ?s1"
    by simp
  have step: "tick s cycles =
          (if cycles_to_transmit ?s1 = 0 then
            if timestamp ?s1 > last_received_timestamp ?s1 then Returned False ?s1
            else
              (case (if drop_bit 7 (SC ?s1) AND 1 \<noteq> 0 then send_bit ?s1 else Inr ?s1) of
                 Inl e \<Rightarrow> Raised e ?s1
               | Inr s4 \<Rightarrow>
                   (case recv s4 of
                      [] \<Rightarrow> Blocked s4
                    | (byte, ts) # rest \<Rightarrow>
                        let s5 = s4\<lparr>recv := rest,
                                    SB := (push_bit 1 (SB s4) AND 0xFF) OR byte\<rparr>;
                            s6 = s5\<lparr>trans_bits := trans_bits s5 + 1\<rparr>;
                            s7 = s6\<lparr>cycles_count := 0\<rparr>
                        in
                          if trans_bits s7 = 8
                          then Returned True (s7\<lparr>trans_bits := 0, SC := SC s7 AND 0x7F\<rparr>)
                          else Returned False s7))
          else Returned False ?s1)"
    unfolding tick_def Let_def s3 using assms(1) by (simp only: if_False)
  have f: "recv ?s1 = recv s" "SB ?s1 = SB s" "trans_bits ?s1 = trans_bits s" "SC ?s1 = SC s"
    "last_received_timestamp ?s1 = last_received_timestamp s"
    by simp_all
  note tail = tick_tail[OF c thr, unfolded f]
  from step[unfolded f] tail show ?thesis unfolding Let_def by (rule trans)
qed

lemma tick_below_threshold:
  assumes "connection s \<noteq> None"
    and "cycles_to_transmit (s\<lparr>cycles_count := cycles_count s + cycles\<rparr>) \<noteq> 0"
  shows "tick s cycles =
           Returned False
             (s\<lparr>cycles_count := cycles_count s + cycles,
                ts_cycles := (if ts_cycles s + cycles \<ge> 2 ^ 21
                              then ts_cycles s + cycles - 2 ^ 21 else ts_cycles s + cycles),
                timestamp := (if ts_cycles s + cycles \<ge> 2 ^ 21
                              then timestamp s + 1 else timestamp s)\<rparr>)"
  using assms
  by (auto simp: tick_def Let_def cycles_to_transmit_def)

lemma send_bit_open:
  assumes "connection s = Some c" and "\<not> sock_closed c" and "is_master s = Some m"
    and "0 \<le> SC s \<and> SC s \<le> 255" and "0 \<le> timestamp s \<and> timestamp s \<le> 2 ^ 32 - 1"
  shows "send_bit s =
           Inr (s\<lparr>connection := Some (c\<lparr>sock_sent := sock_sent c @
                  [[if m then 104 else 105, word_of_int (drop_bit 7 (SB s) AND 1),
                    word_of_int (SC s), 0,
                    word_of_int (timestamp s), word_of_int (timestamp s div 256),
                    word_of_int (timestamp s div 65536),
                    word_of_int (timestamp s div 16777216)]]\<rparr>)\<rparr>)"
  using assms top_bit_range[of "SB s"]
  by (simp add: send_bit_def sync_kind_def pack_4BI_def in_B_def in_I_def connection_send_def)

lemma send_bit_closed:
  assumes "connection s = Some c" and "sock_closed c" and "is_master s = Some m"
    and "0 \<le> SC s \<and> SC s \<le> 255" and "0 \<le> timestamp s \<and> timestamp s \<le> 2 ^ 32 - 1"
  shows "send_bit s = Inl OSError"
  using assms top_bit_range[of "SB s"]
  by (simp add: send_bit_def sync_kind_def pack_4BI_def in_B_def in_I_def connection_send_def)

text \<open>
  C2. On a connected device, let \<open>s1\<close> be the attributes once the elapsed cycles are
  added and the clock is updated. If the cycle threshold is reached and the timestamp
  gate is open, and the Sync packet can be sent (the socket is open, \<open>is_master\<close> is
  set, \<open>SC\<close> and the timestamp fit their fields), then \<open>tick\<close> sends the packet, and
  with an item \<open>(byte, ts)\<close> at the head of the queue it performs the bit transfer: it
  takes the item, sets \<open>SB\<close> to \<open>((SB << 1) & 0xFF) | byte\<close>, increments \<open>trans_bits\<close>,
  sets \<open>cycles_count\<close> to 0, and returns \<open>True\<close> exactly when the incremented
  \<open>trans_bits\<close> is 8, in which case \<open>trans_bits\<close> is back to 0 and bit 7 of \<open>SC\<close> is
  cleared; otherwise it returns \<open>False\<close> and \<open>SC\<close> is unchanged. With an empty queue
  the call waits in \<open>recv.get()\<close>, the packet sent. If the packet cannot be sent, the
  call raises the exception of \<open>send_bit\<close>. On every other tick (threshold not reached,
  or gate closed) it returns \<open>False\<close> with only the cycle count and the clock changed.

  Conversely, every call that returns either left the queue alone and returned \<open>False\<close>,
  or took its head and did the above. From a state with \<open>trans_bits\<close> in \<open>0..7\<close> (the
  constructor sets 0), every run of calls leaves \<open>trans_bits\<close> in \<open>0..7\<close>, whatever
  the outcome of its last call; so it stays within \<open>[0, 8]\<close>.
\<close>

theorem tick_bit_transfer:
  assumes "connection s = Some c"
  shows
    "(let s1 = s\<lparr>cycles_count := cycles_count s + cycles,
                  ts_cycles := (if ts_cycles s + cycles \<ge> 2 ^ 21
                                then ts_cycles s + cycles - 2 ^ 21 else ts_cycles s + cycles),
                  timestamp := (if ts_cycles s + cycles \<ge> 2 ^ 21
                                then timestamp s + 1 else timestamp s)\<rparr>;
          at_threshold = (cycles_to_transmit (s\<lparr>cycles_count := cycles_count s + cycles\<rparr>) = 0);
          gate_open = (timestamp s1 \<le> last_received_timestamp s);
          pkt = [if is_master s = Some True then 104 else 105,
                 word_of_int (drop_bit 7 (SB s) AND 1), word_of_int (SC s), 0,
                 word_of_int (timestamp s1), word_of_int (timestamp s1 div 256),
                 word_of_int (timestamp s1 div 65536), word_of_int (timestamp s1 div 16777216)];
          s2 = s1\<lparr>connection := Some (c\<lparr>sock_sent := sock_sent c @ [pkt]\<rparr>)\<rparr>
      in
        (at_threshold \<and> gate_open \<and> \<not> sock_closed c \<and> is_master s \<noteq> None
           \<and> 0 \<le> SC s \<and> SC s \<le> 255 \<and> 0 \<le> timestamp s1 \<and> timestamp s1 \<le> 2 ^ 32 - 1 \<longrightarrow>
           (\<forall>byte ts rest. recv s = (byte, ts) # rest \<longrightarrow>
              tick s cycles =
                Returned (trans_bits s + 1 = 8)
                  (s2\<lparr>recv := rest,
                      SB := (push_bit 1 (SB s) AND 0xFF) OR byte,
                      trans_bits := (if trans_bits s + 1 = 8 then 0 else trans_bits s + 1),
                      cycles_count := 0,
                      SC := (if trans_bits s + 1 = 8 then SC s AND 0x7F else SC s)\<rparr>))
         \<and> (recv s = [] \<longrightarrow> tick s cycles = Blocked s2))
      \<and> (at_threshold \<and> gate_open \<longrightarrow>
           (\<forall>e. send_bit s1 = Inl e \<longrightarrow> tick s cycles = Raised e s1))
      \<and> (\<not> (at_threshold \<and> gate_open) \<longrightarrow> tick s cycles = Returned False s1))
   \<and> (\<forall>r s'. tick s cycles = Returned r s' \<longrightarrow>
           (if recv s' = recv s
            then \<not> r \<and> trans_bits s' = trans_bits s \<and> SB s' = SB s \<and> SC s' = SC s
            else \<exists>byte ts. recv s = (byte, ts) # recv s'
                 \<and> SB s' = (push_bit 1 (SB s) AND 0xFF) OR byte
                 \<and> cycles_count s' = 0
                 \<and> (r \<longleftrightarrow> trans_bits s + 1 = 8)
                 \<and> trans_bits s' = (if trans_bits s + 1 = 8 then 0 else trans_bits s + 1)
                 \<and> SC s' = (if trans_bits s + 1 = 8 then SC s AND 0x7F else SC s)))
   \<and> (0 \<le> trans_bits s \<and> trans_bits s < 8 \<longrightarrow>
        (\<forall>cs. 0 \<le> trans_bits (state_of (ticks s cs))
            \<and> trans_bits (state_of (ticks s cs)) < 8))"
proof -
  let ?s1 = "s\<lparr>cycles_count := cycles_count s + cycles,
                  ts_cycles := (if ts_cycles s + cycles \<ge> 2 ^ 21
                                then ts_cycles s + cycles - 2 ^ 21 else ts_cycles s + cycles),
                  timestamp := (if ts_cycles s + cycles \<ge> 2 ^ 21
                                then timestamp s + 1 else timestamp s)\<rparr>"
  let ?thr = "cycles_to_transmit (s\<lparr>cycles_count := cycles_count s + cycles\<rparr>) = 0"
  let ?gate = "timestamp ?s1 \<le> last_received_timestamp s"
  let ?pkt = "[if is_master s = Some True then 104 else 105,
                 word_of_int (drop_bit 7 (SB s) AND 1), word_of_int (SC s), 0,
                 word_of_int (timestamp ?s1), word_of_int (timestamp ?s1 div 256),
                 word_of_int (timestamp ?s1 div 65536),
                 word_of_int (timestamp ?s1 div 16777216)] :: bytes"
  let ?s2 = "?s1\<lparr>connection := Some (c\<lparr>sock_sent := sock_sent c @ [?pkt]\<rparr>)\<rparr>"
  have conn: "connection s \<noteq> None" using assms by simp
  note at = tick_at_threshold[OF conn, unfolded Let_def]
  have sent: "send_bit ?s1 = Inr ?s2"
    if "\<not> sock_closed c" "is_master s \<noteq> None" "0 \<le> SC s" "SC s \<le> 255"
      "0 \<le> timestamp ?s1" "timestamp ?s1 \<le> 2 ^ 32 - 1"
  proof -
    from that(2) obtain m where m: "is_master s = Some m" by blast
    have k: "(if m then 104 else 105 :: byte) = (if is_master s = Some True then 104 else 105)"
      using m by simp
    have "send_bit ?s1 =
           Inr (?s1\<lparr>connection := Some (c\<lparr>sock_sent := sock_sent c @
                  [[if m then 104 else 105, word_of_int (drop_bit 7 (SB ?s1) AND 1),
                    word_of_int (SC ?s1), 0,
                    word_of_int (timestamp ?s1), word_of_int (timestamp ?s1 div 256),
                    word_of_int (timestamp ?s1 div 65536),
                    word_of_int (timestamp ?s1 div 16777216)]]\<rparr>)\<rparr>)"
      using assms that m by (intro send_bit_open) simp_all
    then show ?thesis unfolding k by simp
  qed
  have A: "tick s cycles =
             Returned (trans_bits s + 1 = 8)
               (?s2\<lparr>recv := rest,
                    SB := (push_bit 1 (SB s) AND 0xFF) OR byte,
                    trans_bits := (if trans_bits s + 1 = 8 then 0 else trans_bits s + 1),
                    cycles_count := 0,
                    SC := (if trans_bits s + 1 = 8 then SC s AND 0x7F else SC s)\<rparr>)"
    if "?thr" "?gate" "\<not> sock_closed c" "is_master s \<noteq> None" "0 \<le> SC s" "SC s \<le> 255"
      "0 \<le> timestamp ?s1" "timestamp ?s1 \<le> 2 ^ 32 - 1" "recv s = (byte, ts) # rest"
    for byte ts rest
  proof -
    have g: "\<not> timestamp ?s1 > last_received_timestamp s" using that(2) by simp
    show ?thesis
      unfolding at[OF that(1)] sent[OF that(3-8)] that(9) using g by simp
  qed
  have B: "tick s cycles = Blocked ?s2"
    if "?thr" "?gate" "\<not> sock_closed c" "is_master s \<noteq> None" "0 \<le> SC s" "SC s \<le> 255"
      "0 \<le> timestamp ?s1" "timestamp ?s1 \<le> 2 ^ 32 - 1" "recv s = []"
  proof -
    have g: "\<not> timestamp ?s1 > last_received_timestamp s" using that(2) by simp
    show ?thesis
      unfolding at[OF that(1)] sent[OF that(3-8)] that(9) using g by simp
  qed
  have C: "tick s cycles = Raised e ?s1" if "?thr" "?gate" "send_bit ?s1 = Inl e" for e
  proof -
    have g: "\<not> timestamp ?s1 > last_received_timestamp s" using that(2) by simp
    show ?thesis unfolding at[OF that(1)] that(3) using g by simp
  qed
  have D: "tick s cycles = Returned False ?s1" if "\<not> (?thr \<and> ?gate)"
  proof (cases ?thr)
    case True
    with that have g: "timestamp ?s1 > last_received_timestamp s" by simp
    show ?thesis unfolding at[OF True] using g by simp
  next
    case False
    then show ?thesis by (rule tick_below_threshold[OF conn])
  qed
  have E: "\<forall>r s'. tick s cycles = Returned r s' \<longrightarrow>
           (if recv s' = recv s
            then \<not> r \<and> trans_bits s' = trans_bits s \<and> SB s' = SB s \<and> SC s' = SC s
            else \<exists>byte ts. recv s = (byte, ts) # recv s'
                 \<and> SB s' = (push_bit 1 (SB s) AND 0xFF) OR byte
                 \<and> cycles_count s' = 0
                 \<and> (r \<longleftrightarrow> trans_bits s + 1 = 8)
                 \<and> trans_bits s' = (if trans_bits s + 1 = 8 then 0 else trans_bits s + 1)
                 \<and> SC s' = (if trans_bits s + 1 = 8 then SC s AND 0x7F else SC s))"
    using tick_Returned[OF conn] by blast
  have F: "0 \<le> trans_bits s \<and> trans_bits s < 8 \<longrightarrow>
        (\<forall>cs. 0 \<le> trans_bits (state_of (ticks s cs))
            \<and> trans_bits (state_of (ticks s cs)) < 8)"
    using ticks_trans_bits_range[of s] by blast
  show ?thesis
    unfolding Let_def
    using A B C D E F by blast
qed

theorem tick_bit_transfer_witness:
  "connection armed = Some new_socket
   \<and> tick armed 514 =
       Returned True
         (armed\<lparr>connection := Some \<lparr>sock_closed = False, sock_sent = [[104, 0, 129, 0, 0, 0, 0, 0]]\<rparr>,
                recv := [], SB := 0xA5, trans_bits := 0, SC := 1, ts_cycles := 514\<rparr>)
   \<and> tick (armed\<lparr>trans_bits := 2\<rparr>) 514 =
       Returned False
         (armed\<lparr>connection := Some \<lparr>sock_closed = False, sock_sent = [[104, 0, 129, 0, 0, 0, 0, 0]]\<rparr>,
                recv := [], SB := 0xA5, trans_bits := 3, ts_cycles := 514\<rparr>)
   \<and> tick (armed\<lparr>recv := []\<rparr>) 514 =
       Blocked
         (armed\<lparr>connection := Some \<lparr>sock_closed = False, sock_sent = [[104, 0, 129, 0, 0, 0, 0, 0]]\<rparr>,
                recv := [], cycles_count := 514, ts_cycles := 514\<rparr>)
   \<and> tick hung_up 514 = Raised OSError (hung_up\<lparr>cycles_count := 514, ts_cycles := 514\<rparr>)
   \<and> tick armed 100 = Returned False (armed\<lparr>cycles_count := 100, ts_cycles := 100\<rparr>)
   \<and> trans_bits (state_of (ticks armed [514, 514, 514])) < 8"
proof -
  note defs = armed_def linked_def fresh_def new_socket_def cycles_to_transmit_def
    CPU_FREQ_def SERIAL_FREQ_def Let_def
  have c: "connection armed = Some new_socket" by (simp add: armed_def linked_def)
  have a: "tick armed 514 =
       Returned True
         (armed\<lparr>connection := Some \<lparr>sock_closed = False, sock_sent = [[104, 0, 129, 0, 0, 0, 0, 0]]\<rparr>,
                recv := [], SB := 0xA5, trans_bits := 0, SC := 1, ts_cycles := 514\<rparr>)"
    using tick_bit_transfer[OF c, of 514] by (simp add: defs)
  have c2: "connection (armed\<lparr>trans_bits := 2\<rparr>) = Some new_socket"
    by (simp add: armed_def linked_def)
  have b: "tick (armed\<lparr>trans_bits := 2\<rparr>) 514 =
       Returned False
         (armed\<lparr>connection := Some \<lparr>sock_closed = False, sock_sent = [[104, 0, 129, 0, 0, 0, 0, 0]]\<rparr>,
                recv := [], SB := 0xA5, trans_bits := 3, ts_cycles := 514\<rparr>)"
    using tick_bit_transfer[OF c2, of 514] by (simp add: defs)
  have c3: "connection (armed\<lparr>recv := []\<rparr>) = Some new_socket"
    by (simp add: armed_def linked_def)
  have w: "tick (armed\<lparr>recv := []\<rparr>) 514 =
       Blocked
         (armed\<lparr>connection := Some \<lparr>sock_closed = False, sock_sent = [[104, 0, 129, 0, 0, 0, 0, 0]]\<rparr>,
                recv := [], cycles_count := 514, ts_cycles := 514\<rparr>)"
    using tick_bit_transfer[OF c3, of 514] by (simp add: defs)
  have c4: "connection hung_up = Some (new_socket\<lparr>sock_closed := True\<rparr>)"
    by (simp add: hung_up_def)
  have r: "tick hung_up 514 = Raised OSError (hung_up\<lparr>cycles_count := 514, ts_cycles := 514\<rparr>)"
    using tick_bit_transfer[OF c4, of 514]
    by (simp add: hung_up_def defs send_bit_def sync_kind_def pack_4BI_def in_B_def in_I_def
        connection_send_def)
  have e: "tick armed 100 = Returned False (armed\<lparr>cycles_count := 100, ts_cycles := 100\<rparr>)"
    using tick_bit_transfer[OF c, of 100] by (simp add: defs)
  have i: "0 \<le> trans_bits armed \<and> trans_bits armed < 8" by (simp add: armed_def)
  from tick_bit_transfer[OF c, of 514] i
  have t: "trans_bits (state_of (ticks armed [514, 514, 514])) < 8" by blast
  from c a b w r e t show ?thesis by blast
qed

subsection \<open>The timestamp is not wrapped\<close>

lemma ticks_idle:
  assumes "connection s \<noteq> None" and "SC s AND 0x80 = 0" and "ts_cycles s = 0"
  shows "ticks s (replicate n 2097152) =
           Returned False (s\<lparr>cycles_count := cycles_count s + int n * 2097152,
                             timestamp := timestamp s + int n\<rparr>)"
  using assms
proof (induction n arbitrary: s)
  case 0
  then show ?case by simp
next
  case (Suc n)
  let ?s' = "s\<lparr>cycles_count := cycles_count s + 2097152, timestamp := timestamp s + 1\<rparr>"
  have t: "tick s 2097152 = Returned False ?s'"
    using Suc.prems by (auto simp: tick_def Let_def cycles_to_transmit_def)
  have "ticks ?s' (replicate n 2097152) =
        Returned False (?s'\<lparr>cycles_count := cycles_count ?s' + int n * 2097152,
                             timestamp := timestamp ?s' + int n\<rparr>)"
    using Suc.prems by (intro Suc.IH) simp_all
  with t show ?case by (simp add: algebra_simps)
qed

text \<open>
  C5. The claim does not hold of the code: \<open>tick\<close> adds 1 to \<open>_timestamp\<close> and never
  reduces it to 31 bits, although the comments above the update say that timestamps
  hold the lowest 31 bits only and wrap over. A device as constructed on a successful
  connection, ticked \<open>2^31\<close> times with \<open>2^21\<close> cycles each, has \<open>_timestamp = 2^31\<close>:
  bit 31 is set.
\<close>

theorem timestamp_grows_past_31_bits:
  "ticks (linked True) (replicate (2 ^ 31) (2 ^ 21)) =
     Returned False ((linked True)\<lparr>cycles_count := 2 ^ 52, timestamp := 2 ^ 31\<rparr>)"
proof -
  have "ticks (linked True) (replicate (2 ^ 31) 2097152) =
     Returned False ((linked True)\<lparr>cycles_count := cycles_count (linked True) + int (2 ^ 31) * 2097152,
        timestamp := timestamp (linked True) + int (2 ^ 31)\<rparr>)"
    by (rule ticks_idle) (simp_all add: linked_def fresh_def)
  moreover have "cycles_count (linked True) = 0" "timestamp (linked True) = 0"
    by (simp_all add: linked_def fresh_def)
  ultimately show ?thesis by simp
qed

subsection \<open>The packet codec\<close>

lemma uint_byte: "0 \<le> x \<Longrightarrow> x \<le> 255 \<Longrightarrow> uint (word_of_int x :: 8 word) = x"
  by (simp add: uint_word_of_int)

lemma le_bytes:
  assumes "0 \<le> ts" and "ts \<le> 4294967295"
  shows "uint (word_of_int ts :: 8 word) + 256 * uint (word_of_int (ts div 256) :: 8 word)
         + 65536 * uint (word_of_int (ts div 65536) :: 8 word)
         + 16777216 * uint (word_of_int (ts div 16777216) :: 8 word) = ts"
proof -
  define a where "a = ts div 256"
  define b where "b = a div 256"
  define c where "c = b div 256"
  have b_eq: "ts div 65536 = b" unfolding b_def a_def by (simp add: div_mult2_eq[symmetric])
  have c_eq: "ts div 16777216 = c" unfolding c_def b_def a_def by (simp add: div_mult2_eq[symmetric])
  have c_range: "0 \<le> c" "c < 256" using assms c_eq[symmetric] by simp_all
  have 1: "ts = ts mod 256 + 256 * a" unfolding a_def by simp
  have 2: "a = a mod 256 + 256 * b" unfolding b_def by simp
  have 3: "b = b mod 256 + 256 * c" unfolding c_def by simp
  have 4: "c mod 256 = c" using c_range by simp
  have "ts mod 256 + 256 * (a mod 256) + 65536 * (b mod 256) + 16777216 * (c mod 256) = ts"
    using 1 2 3 4 by linarith
  then show ?thesis
    by (simp add: uint_word_of_int b_eq c_eq a_def[symmetric])
qed

text \<open>
  C7. For \<open>kind\<close>, \<open>b2\<close>, \<open>b3\<close>, \<open>b4\<close> in \<open>0..255\<close> and a timestamp in \<open>0..2^32 - 1\<close>,
  \<open>struct.pack("<4BI", ...)\<close> succeeds with exactly 8 bytes: byte 0 is \<open>kind\<close>, bytes 1 to
  3 are \<open>b2\<close>, \<open>b3\<close>, \<open>b4\<close>, bytes 4 to 7 are the timestamp, least significant byte
  first; and \<open>struct.unpack\<close> of these bytes gives back
  \<open>(kind, b2, b3, b4, timestamp)\<close>.
\<close>

theorem pack_unpack_roundtrip:
  assumes "0 \<le> kind \<and> kind \<le> 255" and "0 \<le> b2 \<and> b2 \<le> 255" and "0 \<le> b3 \<and> b3 \<le> 255"
    and "0 \<le> b4 \<and> b4 \<le> 255" and "0 \<le> ts \<and> ts \<le> 2 ^ 32 - 1"
  shows "\<exists>bs. pack_4BI kind b2 b3 b4 ts = Inr bs \<and> length bs = 8
           \<and> uint (bs ! 0) = kind \<and> uint (bs ! 1) = b2 \<and> uint (bs ! 2) = b3 \<and> uint (bs ! 3) = b4
           \<and> uint (bs ! 4) = ts mod 256 \<and> uint (bs ! 5) = ts div 256 mod 256
           \<and> uint (bs ! 6) = ts div 256 ^ 2 mod 256 \<and> uint (bs ! 7) = ts div 256 ^ 3 mod 256
           \<and> unpack_4BI bs = Inr (kind, b2, b3, b4, ts)"
proof -
  let ?bs = "[word_of_int kind, word_of_int b2, word_of_int b3, word_of_int b4,
              word_of_int ts, word_of_int (ts div 256),
              word_of_int (ts div 65536), word_of_int (ts div 16777216)] :: bytes"
  have r: "0 \<le> ts" "ts \<le> 4294967295" using assms(5) by simp_all
  have k: "uint (word_of_int kind :: 8 word) = kind" "uint (word_of_int b2 :: 8 word) = b2"
    "uint (word_of_int b3 :: 8 word) = b3" "uint (word_of_int b4 :: 8 word) = b4"
    using assms by (simp_all add: uint_byte)
  have p: "pack_4BI kind b2 b3 b4 ts = Inr ?bs"
    using assms(1-4) r by (simp add: pack_4BI_def in_B_def in_I_def)
  have l: "length ?bs = 8" by simp
  have h: "uint (?bs ! 0) = kind" "uint (?bs ! 1) = b2" "uint (?bs ! 2) = b3" "uint (?bs ! 3) = b4"
    using k by simp_all
  have t: "uint (?bs ! 4) = ts mod 256" "uint (?bs ! 5) = ts div 256 mod 256"
    "uint (?bs ! 6) = ts div 256 ^ 2 mod 256" "uint (?bs ! 7) = ts div 256 ^ 3 mod 256"
    by (simp_all add: uint_word_of_int)
  have "unpack_4BI ?bs =
          Inr (uint (word_of_int kind :: 8 word), uint (word_of_int b2 :: 8 word),
               uint (word_of_int b3 :: 8 word), uint (word_of_int b4 :: 8 word),
               uint (word_of_int ts :: 8 word) + 256 * uint (word_of_int (ts div 256) :: 8 word)
               + 65536 * uint (word_of_int (ts div 65536) :: 8 word)
               + 16777216 * uint (word_of_int (ts div 16777216) :: 8 word))"
    by (simp only: unpack_4BI.simps)
  then have u: "unpack_4BI ?bs = Inr (kind, b2, b3, b4, ts)"
    by (simp only: k le_bytes[OF r])
  from p l h t u show ?thesis by blast
qed

theorem pack_unpack_roundtrip_witness:
  "pack_4BI 104 1 129 0 4000000000 = Inr [104, 1, 129, 0, 0, 40, 107, 238]
   \<and> unpack_4BI [104, 1, 129, 0, 0, 40, 107, 238] = Inr (104, 1, 129, 0, 4000000000)"
  using pack_unpack_roundtrip[of 104 1 129 0 4000000000]
  by (simp add: pack_4BI_def in_B_def in_I_def)

subsection \<open>The address check of the constructor\<close>

text \<open>
  \<open>split(":")\<close> gives one more piece than there are colons, so the two-target assignment
  raises \<open>ValueError\<close> for every non-empty address whose number of colons is not 1: the
  guard before it lets these addresses through, because it returns only when the number
  of colons is 1 (and the number of dots is not 3).
\<close>

lemma length_split_char: "length (split_char c s) = Suc (count_char c s)"
  by (induction s) (auto simp: count_char_def split: list.splits)

lemma init_colons_raise:
  assumes "addr \<noteq> []" and "count_char CHR '':'' addr \<noteq> 1"
  shows "init resolves establish (Some addr) serial_bind = Inl ValueError"
proof -
  have "length (split_char CHR '':'' addr) \<noteq> 2"
    using assms(2) by (simp add: length_split_char)
  then show ?thesis
    using assms by (auto simp: init_def split: list.splits)
qed

text \<open>
  C3. The claim does not hold of the code. The addresses \<open>localhost\<close> (no dot, no colon)
  and \<open>1.2.3.4:5:6\<close> (two colons) are not of the form \<open>x.y.z.w:abcd\<close>, yet the
  constructor does not return with the device disabled: it raises \<open>ValueError\<close>,
  whatever the bind flag and the operating system do.
\<close>

theorem init_malformed_address_raises:
  "init resolves establish (Some ''localhost'') serial_bind = Inl ValueError
   \<and> init resolves establish (Some ''1.2.3.4:5:6'') serial_bind = Inl ValueError"
  by (simp add: init_def count_char_def)

subsection \<open>A Version packet of another version\<close>

lemma handle_version_mismatch:
  "(major, minor, patch) \<noteq> (1, 4, 0) \<Longrightarrow>
     handle_version s major minor patch ts = (s, Inl (Exception ''BGB version mismatch!''))"
  by (simp add: handle_version_def BGB_VERSION_def)

lemma recv_pass_version_mismatch:
  assumes "(uint major, uint minor, uint patch) \<noteq> (1, 4, 0)"
    and "connection s = Some c" and "\<not> sock_closed c"
  shows "recv_pass s (Data [1, major, minor, patch, t0, t1, t2, t3]) =
           Uncaught (Exception ''BGB version mismatch!'')
             (s\<lparr>last_received_timestamp := le32 (t0, t1, t2, t3)\<rparr>)"
  using assms handle_version_mismatch[OF assms(1)]
  by (simp add: recv_pass_def PACKET_SIZE_BYTES_def handlers_def le32_def)

text \<open>
  C4, as amended. For every received Version packet whose (major, minor, patch) is not
  \<open>(1, 4, 0)\<close>, \<open>_handle_version\<close> raises the exception \<open>BGB version mismatch!\<close> and
  changes nothing. The receiver loop does not catch it: on a connected, open device
  the thread ends with that exception, the packets after it are not handled, and the
  attributes are as before except \<open>_last_received_timestamp\<close>, which is the packet's
  timestamp. So nothing is sent (no Status reply), \<open>_got_version\<close> is unchanged, and
  the connection is left as it was: still set, and not closed.
\<close>

theorem version_mismatch_kills_receiver:
  assumes "(uint major, uint minor, uint patch) \<noteq> (1, 4, 0)"
    and "connection s = Some c" and "\<not> sock_closed c" and "\<not> quitting s"
  shows "handle_version s (uint major) (uint minor) (uint patch) ts =
           (s, Inl (Exception ''BGB version mismatch!''))
       \<and> recv_loop s (Data [1, major, minor, patch, t0, t1, t2, t3] # evs) =
           Died (Exception ''BGB version mismatch!'')
             (s\<lparr>last_received_timestamp := le32 (t0, t1, t2, t3)\<rparr>)"
  using assms(4) recv_pass_version_mismatch[OF assms(1-3)] handle_version_mismatch[OF assms(1)]
  by simp

theorem version_mismatch_kills_receiver_witness:
  "(uint (1 :: byte), uint (3 :: byte), uint (0 :: byte)) \<noteq> (1, 4, 0)
   \<and> connection (linked True) = Some new_socket \<and> \<not> sock_closed new_socket
   \<and> \<not> quitting (linked True)
   \<and> recv_loop (linked True) [Data [1, 1, 3, 0, 9, 0, 0, 0], Data [108, 1, 0, 0, 9, 0, 0, 0]] =
        Died (Exception ''BGB version mismatch!'') ((linked True)\<lparr>last_received_timestamp := 9\<rparr>)"
proof -
  have a: "(uint (1 :: byte), uint (3 :: byte), uint (0 :: byte)) \<noteq> (1, 4, 0)" by simp
  have b: "connection (linked True) = Some new_socket" by (simp add: linked_def)
  have c: "\<not> sock_closed new_socket" by (simp add: new_socket_def)
  have d: "\<not> quitting (linked True)" by (simp add: linked_def fresh_def)
  from version_mismatch_kills_receiver[OF a b c d, of 0 9 0 0 0 "[Data [108, 1, 0, 0, 9, 0, 0, 0]]"]
  have "recv_loop (linked True) [Data [1, 1, 3, 0, 9, 0, 0, 0], Data [108, 1, 0, 0, 9, 0, 0, 0]] =
        Died (Exception ''BGB version mismatch!'') ((linked True)\<lparr>last_received_timestamp := 9\<rparr>)"
    by (simp add: le32_def)
  with a b c d show ?thesis by blast
qed

text \<open>
  The claim as stated (the link is closed and the feature disabled) fails: the receiver
  thread of a freshly connected device that reads a Version packet of version \<open>1.3.0\<close>
  dies with the exception, and leaves \<open>connection\<close> set to the open socket on which only
  this side's own Version packet was sent.
\<close>

theorem version_mismatch_counterexample:
  "recv_thread (linked True) [Data [1, 1, 3, 0, 0, 0, 0, 0]] =
     Died (Exception ''BGB version mismatch!'')
       ((linked True)\<lparr>connection :=
          Some \<lparr>sock_closed = False, sock_sent = [[1, 1, 4, 0, 0, 0, 0, 0]]\<rparr>\<rparr>)
   \<and> connection (thread_state (recv_thread (linked True) [Data [1, 1, 3, 0, 0, 0, 0, 0]])) \<noteq> None"
  by (simp add: recv_thread_def BGB_VERSION_def pack_4BI_def in_B_def in_I_def connection_send_def
      linked_def fresh_def new_socket_def recv_pass_def PACKET_SIZE_BYTES_def handlers_def
      handle_version_def)

subsection \<open>Version packets of the implemented version\<close>

lemma recv_pass_version_acked:
  assumes "connection s = Some c" and "\<not> sock_closed c" and "got_version s"
  shows "recv_pass s (Data (version_packet q)) = Continue (s\<lparr>last_received_timestamp := le32 q\<rparr>)"
  using assms
  by (cases q) (simp add: recv_pass_def version_packet_def le32_def PACKET_SIZE_BYTES_def
      handlers_def handle_version_def BGB_VERSION_def)

lemma recv_loop_versions_acked:
  assumes "connection s = Some c" and "\<not> sock_closed c" and "\<not> quitting s" and "got_version s"
  shows "recv_loop s (map (\<lambda>q. Data (version_packet q)) qs) =
           Waiting (if qs = [] then s else s\<lparr>last_received_timestamp := le32 (last qs)\<rparr>)"
  using assms
proof (induction qs arbitrary: s)
  case Nil
  then show ?case by simp
next
  case (Cons q qs)
  let ?s' = "s\<lparr>last_received_timestamp := le32 q\<rparr>"
  have p: "recv_pass s (Data (version_packet q)) = Continue ?s'"
    using Cons.prems by (intro recv_pass_version_acked) simp_all
  have "recv_loop ?s' (map (\<lambda>q. Data (version_packet q)) qs) =
          Waiting (if qs = [] then ?s' else ?s'\<lparr>last_received_timestamp := le32 (last qs)\<rparr>)"
    using Cons.prems by (intro Cons.IH) simp_all
  with p Cons.prems(3) show ?case by simp
qed

lemma status_packet_bytes:
  assumes "0 \<le> timestamp s" and "timestamp s \<le> 4294967295"
  shows "get_status_packet s =
           Inr [108, 1, 0, 0, word_of_int (timestamp s), word_of_int (timestamp s div 256),
                word_of_int (timestamp s div 65536), word_of_int (timestamp s div 16777216)]"
  using assms by (simp add: get_status_packet_def pack_4BI_def in_B_def in_I_def)

lemma recv_pass_version_first:
  assumes "connection s = Some c" and "\<not> sock_closed c" and "\<not> got_version s"
    and "get_status_packet s = Inr status"
  shows "recv_pass s (Data (version_packet q)) =
           Continue (s\<lparr>last_received_timestamp := le32 q, got_version := True,
                       connection := Some (c\<lparr>sock_sent := sock_sent c @ [status]\<rparr>)\<rparr>)"
proof -
  have n: "status \<noteq> []"
    using assms(4) by (auto simp: get_status_packet_def pack_4BI_def split: if_splits)
  show ?thesis
    using assms n
    by (cases q) (simp add: recv_pass_def version_packet_def le32_def PACKET_SIZE_BYTES_def
        handlers_def handle_version_def BGB_VERSION_def get_status_packet_def connection_send_def)
qed

text \<open>
  C8. Take a connected, open device that has not acknowledged a version yet and whose
  local timestamp fits the packet's 32-bit field. When the receiver reads any non-empty
  sequence of Version packets of version \<open>1.4.0\<close>, it handles them all and then waits
  for more; exactly one packet has been sent in reply, the Status packet
  \<open>(108, 1, 0, 0, _timestamp)\<close> (running 1, paused 0, supports-reconnect 0), sent for the
  first of them; \<open>_got_version\<close> is set, and \<open>_last_received_timestamp\<close> is the
  timestamp of the last packet.
\<close>

theorem version_status_once:
  assumes "connection s = Some c" and "\<not> sock_closed c" and "\<not> quitting s"
    and "\<not> got_version s" and "0 \<le> timestamp s \<and> timestamp s \<le> 2 ^ 32 - 1"
  shows "recv_loop s (map (\<lambda>q. Data (version_packet q)) (q # qs)) =
           Waiting (s\<lparr>last_received_timestamp := le32 (last (q # qs)),
                      got_version := True,
                      connection := Some (c\<lparr>sock_sent := sock_sent c @
                        [[108, 1, 0, 0, word_of_int (timestamp s),
                          word_of_int (timestamp s div 256),
                          word_of_int (timestamp s div 65536),
                          word_of_int (timestamp s div 16777216)]]\<rparr>)\<rparr>)"
proof -
  let ?status = "[108, 1, 0, 0, word_of_int (timestamp s), word_of_int (timestamp s div 256),
                  word_of_int (timestamp s div 65536), word_of_int (timestamp s div 16777216)] :: bytes"
  let ?c' = "c\<lparr>sock_sent := sock_sent c @ [?status]\<rparr>"
  let ?s' = "s\<lparr>last_received_timestamp := le32 q, got_version := True, connection := Some ?c'\<rparr>"
  have st: "get_status_packet s = Inr ?status"
    using assms(5) by (intro status_packet_bytes) simp_all
  have p: "recv_pass s (Data (version_packet q)) = Continue ?s'"
    by (rule recv_pass_version_first[OF assms(1,2,4) st])
  have "recv_loop ?s' (map (\<lambda>q. Data (version_packet q)) qs) =
          Waiting (if qs = [] then ?s' else ?s'\<lparr>last_received_timestamp := le32 (last qs)\<rparr>)"
    using assms by (intro recv_loop_versions_acked[of _ ?c']) simp_all
  with p assms(3) show ?thesis by simp
qed

theorem version_status_once_witness:
  "connection (linked True) = Some new_socket \<and> \<not> sock_closed new_socket
   \<and> \<not> quitting (linked True) \<and> \<not> got_version (linked True)
   \<and> (0 \<le> timestamp (linked True) \<and> timestamp (linked True) \<le> 2 ^ 32 - 1)
   \<and> recv_loop (linked True)
        [Data [1, 1, 4, 0, 5, 0, 0, 0], Data [1, 1, 4, 0, 6, 0, 0, 0], Data [1, 1, 4, 0, 7, 0, 0, 0]] =
      Waiting ((linked True)\<lparr>last_received_timestamp := 7, got_version := True,
                 connection := Some \<lparr>sock_closed = False,
                                      sock_sent = [[108, 1, 0, 0, 0, 0, 0, 0]]\<rparr>\<rparr>)"
proof -
  have b: "connection (linked True) = Some new_socket" by (simp add: linked_def)
  have c: "\<not> sock_closed new_socket" by (simp add: new_socket_def)
  have d: "\<not> quitting (linked True)" "\<not> got_version (linked True)"
    by (simp_all add: linked_def fresh_def)
  have e: "0 \<le> timestamp (linked True) \<and> timestamp (linked True) \<le> 2 ^ 32 - 1"
    by (simp add: linked_def fresh_def)
  have t: "timestamp (linked True) = 0" by (simp add: linked_def fresh_def)
  from version_status_once[OF b c d e, of "(5, 0, 0, 0)" "[(6, 0, 0, 0), (7, 0, 0, 0)]"]
  have "recv_loop (linked True)
        [Data [1, 1, 4, 0, 5, 0, 0, 0], Data [1, 1, 4, 0, 6, 0, 0, 0], Data [1, 1, 4, 0, 7, 0, 0, 0]] =
      Waiting ((linked True)\<lparr>last_received_timestamp := 7, got_version := True,
                 connection := Some \<lparr>sock_closed = False,
                                      sock_sent = [[108, 1, 0, 0, 0, 0, 0, 0]]\<rparr>\<rparr>)"
    by (simp add: version_packet_def le32_def t new_socket_def del: recv_loop.simps)
  with b c d e show ?thesis by blast
qed

subsection \<open>The two Sync handlers\<close>

text \<open>
  C10. \<open>_handle_sync1\<close> and \<open>_handle_sync2\<close> are the same function. On every state and
  every input each appends \<open>(data, timestamp)\<close> to the queue and changes nothing else,
  and both give the same result; when that is a reply, it has 8 bytes, its kind is 104
  if this side is the master and 105 otherwise, its second byte is the top bit of \<open>SB\<close>
  and its third is \<open>SC\<close>. So the receiver does the same with a packet of kind 104 as
  with the same packet under kind 105.
\<close>

theorem sync_handlers_equal:
  "handle_sync1 = handle_sync2
   \<and> fst (handle_sync1 s data control b4 ts) = s\<lparr>recv := recv s @ [(data, ts)]\<rparr>
   \<and> fst (handle_sync2 s data control b4 ts) = s\<lparr>recv := recv s @ [(data, ts)]\<rparr>
   \<and> snd (handle_sync1 s data control b4 ts) = snd (handle_sync2 s data control b4 ts)
   \<and> (\<forall>reply. snd (handle_sync2 s data control b4 ts) = Inr (Some reply) \<longrightarrow>
         length reply = 8
       \<and> uint (reply ! 0) = (if is_master s = Some True then 104 else 105)
       \<and> uint (reply ! 1) = drop_bit 7 (SB s) AND 1
       \<and> uint (reply ! 2) = SC s
       \<and> reply ! 3 = 0)
   \<and> recv_pass s (Data [104, d, c, b, t0, t1, t2, t3]) =
       recv_pass s (Data [105, d, c, b, t0, t1, t2, t3])"
proof -
  have eq: "handle_sync1 = handle_sync2"
    by (intro ext) (simp add: handle_sync1_def handle_sync2_def)
  have q: "fst (handle_sync2 s data control b4 ts) = s\<lparr>recv := recv s @ [(data, ts)]\<rparr>"
    by (simp add: handle_sync2_def client_data_handler_def Let_def split: sum.splits)
  have r: "\<forall>reply. snd (handle_sync2 s data control b4 ts) = Inr (Some reply) \<longrightarrow>
         length reply = 8
       \<and> uint (reply ! 0) = (if is_master s = Some True then 104 else 105)
       \<and> uint (reply ! 1) = drop_bit 7 (SB s) AND 1
       \<and> uint (reply ! 2) = SC s
       \<and> reply ! 3 = 0"
    by (auto simp: handle_sync2_def client_data_handler_def Let_def sync_kind_def pack_4BI_def
        in_B_def uint_byte split: sum.splits option.splits if_splits)
  have p: "recv_pass s (Data [104, d, c, b, t0, t1, t2, t3]) =
       recv_pass s (Data [105, d, c, b, t0, t1, t2, t3])"
    by (cases "connection s"; cases "sock_closed (the (connection s))")
      (simp_all add: recv_pass_def PACKET_SIZE_BYTES_def handlers_def eq)
  from eq q r p show ?thesis by simp
qed

theorem sync_handlers_equal_witness:
  "handle_sync1 ((linked False)\<lparr>SB := 0x80, SC := 0x80\<rparr>) 1 0 0 7 =
     (((linked False)\<lparr>SB := 0x80, SC := 0x80, recv := [(1, 7)]\<rparr>),
      Inr (Some [105, 1, 128, 0, 0, 0, 0, 0]))
   \<and> handle_sync2 ((linked False)\<lparr>SB := 0x80, SC := 0x80\<rparr>) 1 0 0 7 =
     (((linked False)\<lparr>SB := 0x80, SC := 0x80, recv := [(1, 7)]\<rparr>),
      Inr (Some [105, 1, 128, 0, 0, 0, 0, 0]))"
  using sync_handlers_equal[of "(linked False)\<lparr>SB := 0x80, SC := 0x80\<rparr>" 1 0 0 7]
  by (simp add: handle_sync2_def client_data_handler_def sync_kind_def pack_4BI_def in_B_def
      in_I_def linked_def fresh_def)

end
